theory Spec2Isabelle
  imports Main "HOL-Library.AList"
begin

section \<open>Strings as the command server uses them\<close>

text \<open>
  The server of \<^verbatim>\<open>command_server.py\<close> works on Python \<^verbatim>\<open>str\<close> values. Here a string
  is a \<^typ>\<open>string\<close> of ASCII characters (\<open>ascii\<close>), and the character operations are
  those of Python on such strings: \<^verbatim>\<open>str.upper\<close> maps \<^verbatim>\<open>a..z\<close> to \<^verbatim>\<open>A..Z\<close> and leaves every
  other ASCII character alone, and the white space of \<^verbatim>\<open>str.split(None, 1)\<close> is that of
  \<^verbatim>\<open>str.isspace\<close> below 128 (codes 9 to 13, 28 to 31 and 32). What Python does with the
  characters beyond ASCII is driven by the Unicode tables and is not part of this model;
  the statements that depend on the reading of a line are made for ASCII lines.
\<close>

definition ascii :: "string \<Rightarrow> bool" where
  "ascii s = list_all (\<lambda>c. (of_char c :: nat) < 128) s"

definition is_space :: "char \<Rightarrow> bool" where
  "is_space c = (let n = (of_char c :: nat) in (9 \<le> n \<and> n \<le> 13) \<or> (28 \<le> n \<and> n \<le> 32))"

definition upper_char :: "char \<Rightarrow> char" where
  "upper_char c = (let n = (of_char c :: nat) in if 97 \<le> n \<and> n \<le> 122 then char_of (n - 32) else c)"

definition upper :: "string \<Rightarrow> string" where
  "upper s = map upper_char s"

text \<open>
  \<^verbatim>\<open>s.split(None, 1)\<close>: leading white space is skipped; the first word runs to the next
  white space; the white space after it is skipped and what is left, when it is not
  empty, is the second part, with its own trailing white space kept.
\<close>

definition split_none_1 :: "string \<Rightarrow> string list" where
  "split_none_1 s =
     (let s1 = dropWhile is_space s in
      if s1 = [] then []
      else
        let w = takeWhile (\<lambda>c. \<not> is_space c) s1;
            r = dropWhile is_space (dropWhile (\<lambda>c. \<not> is_space c) s1)
        in if r = [] then [w] else [w, r])"

text \<open>\<^verbatim>\<open>', '.join(xs)\<close>.\<close>

fun join_comma :: "string list \<Rightarrow> string" where
  "join_comma [] = []"
| "join_comma [x] = x"
| "join_comma (x # y # ys) = x @ '', '' @ join_comma (y # ys)"

text \<open>\<^verbatim>\<open>key.replace("_", "-")\<close>.\<close>

definition hyphenate :: "string \<Rightarrow> string" where
  "hyphenate k = map (\<lambda>c. if c = CHR ''_'' then CHR ''-'' else c) k"

section \<open>Python values: floats, \<^verbatim>\<open>float()\<close> and \<^verbatim>\<open>str()\<close>\<close>

text \<open>
  The VOLUME handler calls the builtin \<^verbatim>\<open>float(arg)\<close> and formats the result with
  \<^verbatim>\<open>str\<close>. A Python float is a finite double \<open>PFin neg m e\<close>, an infinity \<open>PInf neg\<close> or
  \<open>PNaN\<close>. The grammar of
  \<^verbatim>\<open>float()\<close> is the one of the language reference: surrounding white space is
  stripped, underscores are allowed between digits only, an optional sign is followed by
  \<^verbatim>\<open>inf\<close>, \<^verbatim>\<open>infinity\<close> or \<^verbatim>\<open>nan\<close> in any case, or by a decimal number with an optional
  exponent. A decimal at or beyond the rounding threshold of the largest double becomes an
  infinity and one at or below half the smallest subnormal becomes zero.

  A finite float is named by a decimal that rounds to it: \<open>PFin neg m e\<close> stands for the
  double nearest to \<open>(-1)^neg * m * 10^e\<close>, so different terms can name the same double.
  The white space that \<^verbatim>\<open>float()\<close> strips from an ASCII string is that of the C locale
  (codes 9 to 13 and 32), a smaller set than that of \<^verbatim>\<open>str.split\<close>.

  The values that the options hold are \<^verbatim>\<open>None\<close>, booleans, integers, floats and strings.
\<close>

datatype pyfloat = PFin bool nat int | PInf bool | PNaN

datatype pyval = PNone | PBool bool | PInt int | PFloat pyfloat | PStr string

definition is_digit :: "char \<Rightarrow> bool" where
  "is_digit c = (let n = (of_char c :: nat) in 48 \<le> n \<and> n \<le> 57)"

definition digit_val :: "char \<Rightarrow> nat" where
  "digit_val c = of_char c - 48"

definition digits_val :: "string \<Rightarrow> nat" where
  "digits_val ds = foldl (\<lambda>a c. 10 * a + digit_val c) 0 ds"

definition is_float_space :: "char \<Rightarrow> bool" where
  "is_float_space c = (let n = (of_char c :: nat) in (9 \<le> n \<and> n \<le> 13) \<or> n = 32)"

definition strip :: "string \<Rightarrow> string" where
  "strip s = rev (dropWhile is_float_space (rev (dropWhile is_float_space s)))"

fun underscores_ok :: "char option \<Rightarrow> string \<Rightarrow> bool" where
  "underscores_ok prev [] = (prev \<noteq> Some (CHR ''_''))"
| "underscores_ok prev (c # cs) =
     (if c = CHR ''_''
      then (case prev of Some p \<Rightarrow> is_digit p | None \<Rightarrow> False) \<and> underscores_ok (Some c) cs
      else (prev = Some (CHR ''_'') \<longrightarrow> is_digit c) \<and> underscores_ok (Some c) cs)"

definition take_sign :: "string \<Rightarrow> bool \<times> string" where
  "take_sign s =
     (case s of
        [] \<Rightarrow> (False, [])
      | c # r \<Rightarrow> if c = CHR ''-'' then (True, r) else if c = CHR ''+'' then (False, r) else (False, s))"

definition parse_exponent :: "string \<Rightarrow> int option" where
  "parse_exponent r =
     (case r of
        [] \<Rightarrow> Some 0
      | c # r1 \<Rightarrow>
          if c = CHR ''e'' \<or> c = CHR ''E'' then
            (let (neg, ds) = take_sign r1 in
             if ds \<noteq> [] \<and> list_all is_digit ds
             then Some (if neg then - int (digits_val ds) else int (digits_val ds))
             else None)
          else None)"

definition parse_decimal :: "string \<Rightarrow> (nat \<times> int) option" where
  "parse_decimal s =
     (let ip = takeWhile is_digit s;
          r1 = dropWhile is_digit s;
          dot = (r1 \<noteq> [] \<and> hd r1 = CHR ''.'');
          fp = (if dot then takeWhile is_digit (tl r1) else []);
          r2 = (if dot then dropWhile is_digit (tl r1) else r1)
      in if ip = [] \<and> fp = [] then None
         else (case parse_exponent r2 of
                 None \<Rightarrow> None
               | Some x \<Rightarrow> Some (digits_val (ip @ fp), x - int (length fp))))"

definition overflows :: "nat \<Rightarrow> int \<Rightarrow> bool" where
  "overflows m e =
     (if 0 \<le> e then 2 ^ 1024 - 2 ^ 970 \<le> int m * 10 ^ nat e
      else (2 ^ 1024 - 2 ^ 970) * 10 ^ nat (- e) \<le> int m)"

definition underflows :: "nat \<Rightarrow> int \<Rightarrow> bool" where
  "underflows m e = (e < 0 \<and> int m * 2 ^ 1075 \<le> 10 ^ nat (- e))"

definition to_double :: "bool \<Rightarrow> nat \<Rightarrow> int \<Rightarrow> pyfloat" where
  "to_double neg m e =
     (if m = 0 then PFin neg 0 0
      else if overflows m e then PInf neg
      else if underflows m e then PFin neg 0 0
      else PFin neg m e)"

definition py_float :: "string \<Rightarrow> pyfloat option" where
  "py_float arg =
     (let s = strip arg in
      if \<not> underscores_ok None s then None
      else
        let (neg, r) = take_sign (filter (\<lambda>c. c \<noteq> CHR ''_'') s) in
        if upper r = ''INF'' \<or> upper r = ''INFINITY'' then Some (PInf neg)
        else if upper r = ''NAN'' then Some PNaN
        else (case parse_decimal r of
                None \<Rightarrow> None
              | Some (m, e) \<Rightarrow> Some (to_double neg m e)))"

fun nat_digits :: "nat \<Rightarrow> string" where
  "nat_digits n = (if n < 10 then [char_of (48 + n)] else nat_digits (n div 10) @ [char_of (48 + n mod 10)])"

declare nat_digits.simps [simp del]

definition int_str :: "int \<Rightarrow> string" where
  "int_str i = (if i < 0 then ''-'' else []) @ nat_digits (nat \<bar>i\<bar>)"

definition exponent_str :: "int \<Rightarrow> string" where
  "exponent_str x =
     (if x < 0 then ''-'' else ''+'') @
     (if \<bar>x\<bar> < 10 then ''0'' else []) @ nat_digits (nat \<bar>x\<bar>)"

text \<open>
  \<^verbatim>\<open>str\<close> of a float prints the shortest decimal that reads back as the same double. For a
  double named by a decimal of at most 15 significant digits in the range of the normal
  doubles that decimal is the shortest one, and \<open>decimal_repr\<close> prints it the way
  \<^verbatim>\<open>repr\<close> lays digits out (exponent form when the decimal point falls more than 16
  digits to the right or more than 3 zeros to the left). \<open>covered\<close> holds of those
  floats, of the zeros, the infinities and NaN. For the others (longer decimals,
  subnormal range) the digits depend on the binary rounding, and \<^verbatim>\<open>str\<close> is the parameter
  \<open>float_str\<close> of the collaborators below.
\<close>

definition sig_digits :: "nat \<Rightarrow> string" where
  "sig_digits m =
     (let ds0 = nat_digits m;
          tz = length (takeWhile (\<lambda>c. c = CHR ''0'') (rev ds0))
      in take (length ds0 - tz) ds0)"

definition covered :: "pyfloat \<Rightarrow> bool" where
  "covered f =
     (case f of
        PNaN \<Rightarrow> True
      | PInf neg \<Rightarrow> True
      | PFin neg m e \<Rightarrow>
          m = 0 \<or>
          (let x = int (length (nat_digits m)) + e - 1
           in length (sig_digits m) \<le> 15 \<and> - 307 \<le> x \<and> x \<le> 307))"

definition decimal_repr :: "pyfloat \<Rightarrow> string" where
  "decimal_repr f =
     (case f of
        PNaN \<Rightarrow> ''nan''
      | PInf neg \<Rightarrow> (if neg then ''-inf'' else ''inf'')
      | PFin neg m e \<Rightarrow>
          (if neg then ''-'' else []) @
          (if m = 0 then ''0.0''
           else
             let ds0 = nat_digits m;
                 tz = length (takeWhile (\<lambda>c. c = CHR ''0'') (rev ds0));
                 ds = take (length ds0 - tz) ds0;
                 n = int (length ds);
                 decpt = n + e + int tz
             in if decpt \<le> - 4 \<or> 16 < decpt then
                  take 1 ds @ (if 1 < n then ''.'' @ drop 1 ds else []) @ ''e'' @ exponent_str (decpt - 1)
                else if decpt \<le> 0 then ''0.'' @ replicate (nat (- decpt)) (CHR ''0'') @ ds
                else if n \<le> decpt then ds @ replicate (nat (decpt - n)) (CHR ''0'') @ ''.0''
                else take (nat decpt) ds @ ''.'' @ drop (nat decpt) ds))"

fun py_str :: "(pyfloat \<Rightarrow> string) \<Rightarrow> pyval \<Rightarrow> string" where
  "py_str fs PNone = ''None''"
| "py_str fs (PBool b) = (if b then ''True'' else ''False'')"
| "py_str fs (PInt i) = int_str i"
| "py_str fs (PFloat f) = fs f"
| "py_str fs (PStr s) = s"

fun truthy :: "pyval \<Rightarrow> bool" where
  "truthy PNone = False"
| "truthy (PBool b) = b"
| "truthy (PInt i) = (i \<noteq> 0)"
| "truthy (PFloat f) = (case f of PFin neg m e \<Rightarrow> m \<noteq> 0 | _ \<Rightarrow> True)"
| "truthy (PStr s) = (s \<noteq> [])"


section \<open>Exceptions and collaborators\<close>

text \<open>
  Exceptions are values. Only subclasses of \<^verbatim>\<open>Exception\<close> are modelled; \<^verbatim>\<open>ValueError\<close> is
  kept apart because the VOLUME handler catches it by name. \<open>exn_str\<close> is \<^verbatim>\<open>str(e)\<close>.
\<close>

datatype exn = ValueError string | AttributeError string | OtherException string

fun exn_str :: "exn \<Rightarrow> string" where
  "exn_str (ValueError m) = m"
| "exn_str (AttributeError m) = m"
| "exn_str (OtherException m) = m"

text \<open>
  The collaborators are not part of \<^verbatim>\<open>command_server.py\<close>; the records below hold what
  the server reads and writes of them. \<open>ptt\<close> and \<open>inhibit\<close> are \<open>None\<close> when the output
  device has no such attribute (\<^verbatim>\<open>getattr(device, 'ptt', False)\<close>). \<open>internal\<close> is the
  rest of the device, which only the device's own methods touch. \<open>options\<close> is the
  \<^verbatim>\<open>argparse.Namespace\<close>, kept as its attribute dictionary in insertion order.
\<close>

record modem_tx =
  modem_name :: string
  sample_rate :: int

record 'i output_device =
  db :: pyval
  ptt :: "pyval option"
  inhibit :: "pyval option"
  send_queue :: "nat list list"
  internal :: 'i

record 'i world =
  modem :: modem_tx
  output_device :: "'i output_device"
  input_level :: "exn + pyfloat"
  options :: "(string \<times> pyval) list"
  files :: "string \<Rightarrow> string option"

text \<open>
  The operations of the collaborators and of the libraries, as parameters of the server:
  \<open>valid_modes\<close> is \<^verbatim>\<open>[m.name for m in Modems]\<close>; \<open>set_mode\<close> is \<^verbatim>\<open>modem_tx.set_mode\<close>;
  \<open>format_1f\<close> is \<^verbatim>\<open>format(x, '.1f')\<close>; \<open>sine_raw\<close> gives the raw data of the pydub test
  tone for a sample rate; \<open>write_raw\<close> and \<open>device_clear\<close> are the output device's
  \<^verbatim>\<open>write_raw\<close> and \<^verbatim>\<open>clear\<close>; \<open>conf_path\<close> is the two imports of the SAVE handler followed
  by \<^verbatim>\<open>str(Path.home() / ".freedvtnc2.conf")\<close>; \<open>open_w\<close> says whether \<^verbatim>\<open>open(path, "w")\<close>
  raises; \<open>serialize\<close> is \<^verbatim>\<open>DefaultConfigFileParser().serialize\<close>; \<open>float_str\<close> is \<^verbatim>\<open>str\<close> on
  the floats that \<open>covered\<close> leaves out. Each of the operations may raise.
\<close>

record 'i collab =
  valid_modes :: "string list"
  set_mode :: "string \<Rightarrow> modem_tx \<Rightarrow> exn + modem_tx"
  format_1f :: "pyfloat \<Rightarrow> string"
  sine_raw :: "int \<Rightarrow> exn + nat list"
  write_raw :: "nat list \<Rightarrow> 'i output_device \<Rightarrow> exn + 'i output_device"
  device_clear :: "'i output_device \<Rightarrow> exn + 'i output_device"
  conf_path :: "exn + string"
  open_w :: "string \<Rightarrow> exn option"
  serialize :: "(string \<times> string) list \<Rightarrow> exn + string"
  float_str :: "pyfloat \<Rightarrow> string"

text \<open>\<^verbatim>\<open>str\<close> of a float and of a value, with these collaborators.\<close>

definition float_repr :: "'i collab \<Rightarrow> pyfloat \<Rightarrow> string" where
  "float_repr C f = (if covered f then decimal_repr f else float_str C f)"

definition str_of :: "'i collab \<Rightarrow> pyval \<Rightarrow> string" where
  "str_of C v = py_str (float_repr C) v"

text \<open>Reading an attribute of the options raises \<^verbatim>\<open>AttributeError\<close> when it is not there.\<close>

definition no_attribute :: "string \<Rightarrow> string" where
  "no_attribute k =
     [CHR 0x27] @ ''Namespace'' @ [CHR 0x27] @ '' object has no attribute '' @
     [CHR 0x27] @ k @ [CHR 0x27]"

definition get_attr :: "(string \<times> pyval) list \<Rightarrow> string \<Rightarrow> exn + pyval" where
  "get_attr opts k =
     (case map_of opts k of
        None \<Rightarrow> Inl (AttributeError (no_attribute k))
      | Some v \<Rightarrow> Inr v)"

section \<open>The command handlers\<close>

text \<open>
  A handler takes the argument and the state of the collaborators and returns the response
  with the new state. The handlers of MODE, VOLUME, FOLLOW and STATUS can let an exception
  escape (\<open>Inl\<close>); those of LEVELS, PTT TEST, CLEAR and SAVE catch every exception
  themselves. Logging is left out.
\<close>

definition cmd_mode :: "'i collab \<Rightarrow> string \<Rightarrow> 'i world \<Rightarrow> exn + (string \<times> 'i world)" where
  "cmd_mode C arg w =
     (if arg = [] then Inr (''OK MODE '' @ modem_name (modem w), w)
      else
        let mode = upper arg in
        if mode \<notin> set (valid_modes C)
        then Inr (''ERROR Invalid mode. Valid: '' @ join_comma (valid_modes C), w)
        else (case set_mode C mode (modem w) of
                Inl e \<Rightarrow> Inl e
              | Inr mt \<Rightarrow>
                  Inr (''OK MODE '' @ mode,
                       w\<lparr>modem := mt, options := AList.update ''mode'' (PStr mode) (options w)\<rparr>)))"

definition cmd_volume :: "'i collab \<Rightarrow> string \<Rightarrow> 'i world \<Rightarrow> exn + (string \<times> 'i world)" where
  "cmd_volume C arg w =
     (if arg = [] then
        (case get_attr (options w) ''output_volume'' of
           Inl e \<Rightarrow> Inl e
         | Inr v \<Rightarrow> Inr (''OK VOLUME '' @ str_of C v, w))
      else
        (case py_float arg of
           None \<Rightarrow> Inr (''ERROR Invalid volume (must be number in dB)'', w)
         | Some volume \<Rightarrow>
             Inr (''OK VOLUME '' @ float_repr C volume,
                  w\<lparr>output_device := (output_device w)\<lparr>db := PFloat volume\<rparr>,
                    options := AList.update ''output_volume'' (PFloat volume) (options w)\<rparr>)))"

definition cmd_follow :: "string \<Rightarrow> 'i world \<Rightarrow> exn + (string \<times> 'i world)" where
  "cmd_follow arg w =
     (if arg = [] then
        (case get_attr (options w) ''follow'' of
           Inl e \<Rightarrow> Inl e
         | Inr v \<Rightarrow> Inr (''OK FOLLOW '' @ (if truthy v then ''ON'' else ''OFF''), w))
      else
        let a = upper arg in
        if a = ''ON'' then
          Inr (''OK FOLLOW ON'', w\<lparr>options := AList.update ''follow'' (PBool True) (options w)\<rparr>)
        else if a = ''OFF'' then
          Inr (''OK FOLLOW OFF'', w\<lparr>options := AList.update ''follow'' (PBool False) (options w)\<rparr>)
        else Inr (''ERROR Invalid follow state. Use: ON or OFF'', w))"

definition getattr_flag :: "pyval option \<Rightarrow> bool" where
  "getattr_flag a = (case a of None \<Rightarrow> False | Some v \<Rightarrow> truthy v)"

definition cmd_status :: "'i collab \<Rightarrow> 'i world \<Rightarrow> exn + (string \<times> 'i world)" where
  "cmd_status C w =
     (let mode = modem_name (modem w) in
      case get_attr (options w) ''output_volume'' of
        Inl e \<Rightarrow> Inl e
      | Inr volume \<Rightarrow>
          (case get_attr (options w) ''follow'' of
             Inl e \<Rightarrow> Inl e
           | Inr f \<Rightarrow>
               let follow = (if truthy f then ''ON'' else ''OFF'');
                   ptt_s = (if getattr_flag (ptt (output_device w)) then ''ON'' else ''OFF'');
                   channel = (if getattr_flag (inhibit (output_device w)) then ''BUSY'' else ''CLEAR'')
               in Inr (''OK STATUS MODE='' @ mode @ '' VOLUME='' @ str_of C volume @
                       '' FOLLOW='' @ follow @ '' PTT='' @ ptt_s @ '' CHANNEL='' @ channel, w)))"

definition cmd_levels :: "'i collab \<Rightarrow> 'i world \<Rightarrow> string \<times> 'i world" where
  "cmd_levels C w =
     (case input_level w of
        Inl e \<Rightarrow> (''ERROR Could not read levels: '' @ exn_str e, w)
      | Inr rx_level \<Rightarrow> (''OK LEVELS RX='' @ format_1f C rx_level, w))"

definition cmd_ptt_test :: "'i collab \<Rightarrow> 'i world \<Rightarrow> string \<times> 'i world" where
  "cmd_ptt_test C w =
     (case sine_raw C (sample_rate (modem w)) of
        Inl e \<Rightarrow> (''ERROR PTT test failed: '' @ exn_str e, w)
      | Inr raw \<Rightarrow>
          (case write_raw C raw (output_device w) of
             Inl e \<Rightarrow> (''ERROR PTT test failed: '' @ exn_str e, w)
           | Inr d \<Rightarrow> (''OK PTT TEST started'', w\<lparr>output_device := d\<rparr>)))"

definition cmd_clear :: "'i collab \<Rightarrow> 'i world \<Rightarrow> string \<times> 'i world" where
  "cmd_clear C w =
     (case device_clear C (output_device w) of
        Inl e \<Rightarrow> (''ERROR Clear failed: '' @ exn_str e, w)
      | Inr d \<Rightarrow> (''OK CLEAR'', w\<lparr>output_device := d\<lparr>send_queue := []\<rparr>\<rparr>))"

text \<open>
  The dictionary comprehension of the SAVE handler, over \<^verbatim>\<open>vars(self.options).items()\<close>:
  a later key with the same hyphenated name overwrites the value of an earlier one.
\<close>

definition save_value :: "'i collab \<Rightarrow> pyval \<Rightarrow> string" where
  "save_value C v = (if v \<noteq> PNone then str_of C v else [])"

definition save_items :: "'i collab \<Rightarrow> (string \<times> pyval) list \<Rightarrow> (string \<times> string) list" where
  "save_items C opts =
     fold (\<lambda>(key, v) d. AList.update (hyphenate key) (save_value C v) d)
          (filter (\<lambda>(key, v). key \<noteq> ''c'') opts) []"

text \<open>
  \<^verbatim>\<open>open(path, "w")\<close> truncates the file before the dictionary is built and serialized, so
  a failing \<open>serialize\<close> leaves an empty file behind.
\<close>

definition cmd_save :: "'i collab \<Rightarrow> 'i world \<Rightarrow> string \<times> 'i world" where
  "cmd_save C w =
     (case conf_path C of
        Inl e \<Rightarrow> (''ERROR Save failed: '' @ exn_str e, w)
      | Inr path \<Rightarrow>
          (case open_w C path of
             Some e \<Rightarrow> (''ERROR Save failed: '' @ exn_str e, w)
           | None \<Rightarrow>
               (case serialize C (save_items C (options w)) of
                  Inl e \<Rightarrow> (''ERROR Save failed: '' @ exn_str e, w\<lparr>files := (files w)(path \<mapsto> [])\<rparr>)
                | Inr content \<Rightarrow> (''OK SAVE '' @ path, w\<lparr>files := (files w)(path \<mapsto> content)\<rparr>))))"

section \<open>The dispatcher\<close>

text \<open>
  \<open>dispatch\<close> is the body of the \<^verbatim>\<open>try\<close> of \<^verbatim>\<open>_process_command\<close>; \<open>process_command\<close> is the
  whole method, with the \<^verbatim>\<open>except Exception\<close> clause around it.
\<close>

definition dispatch :: "'i collab \<Rightarrow> string \<Rightarrow> string \<Rightarrow> 'i world \<Rightarrow> exn + (string \<times> 'i world)" where
  "dispatch C cmd arg w =
     (if cmd = ''PING'' then Inr (''OK PONG'', w)
      else if cmd = ''MODE'' then cmd_mode C arg w
      else if cmd = ''VOLUME'' then cmd_volume C arg w
      else if cmd = ''FOLLOW'' then cmd_follow arg w
      else if cmd = ''STATUS'' then cmd_status C w
      else if cmd = ''LEVELS'' then Inr (cmd_levels C w)
      else if cmd = ''PTT'' then
        (if arg = ''TEST'' then Inr (cmd_ptt_test C w)
         else Inr (''ERROR Unknown PTT command. Use: PTT TEST'', w))
      else if cmd = ''CLEAR'' then Inr (cmd_clear C w)
      else if cmd = ''SAVE'' then Inr (cmd_save C w)
      else Inr (''ERROR Unknown command: '' @ cmd, w))"

definition process_command :: "'i collab \<Rightarrow> 'i world \<Rightarrow> string \<Rightarrow> string \<times> 'i world" where
  "process_command C w command =
     (case split_none_1 (upper command) of
        [] \<Rightarrow> (''ERROR Empty command'', w)
      | cmd # rest \<Rightarrow>
          let arg = (case rest of [] \<Rightarrow> [] | a # _ \<Rightarrow> a) in
          (case dispatch C cmd arg w of
             Inl e \<Rightarrow> (''ERROR '' @ exn_str e, w)
           | Inr r \<Rightarrow> r))"

section \<open>Responses and example collaborators\<close>

text \<open>A response line starts with \<^verbatim>\<open>OK\<close> or with \<^verbatim>\<open>ERROR\<close>, followed by a blank.\<close>

definition is_response :: "string \<Rightarrow> bool" where
  "is_response r = (take 3 r = ''OK '' \<or> take 6 r = ''ERROR '')"

text \<open>
  A set of collaborators on which the theorems below are run: three modes, a modem that
  takes every mode it is given, devices that never fail, and a serializer writing one
  \<^verbatim>\<open>key = value\<close> line per item. \<open>busy_collab\<close> differs in a modem that refuses every
  mode change.
\<close>

definition ex_collab :: "unit collab" where
  "ex_collab =
     \<lparr>valid_modes = [''DATAC1'', ''DATAC3'', ''DATAC4''],
      set_mode = (\<lambda>m mt. Inr (mt\<lparr>modem_name := m\<rparr>)),
      format_1f = decimal_repr,
      sine_raw = (\<lambda>rate. Inr []),
      write_raw = (\<lambda>raw d. Inr d),
      device_clear = (\<lambda>d. Inr d),
      conf_path = Inr ''/home/pi/.freedvtnc2.conf'',
      open_w = (\<lambda>path. None),
      serialize = (\<lambda>items. Inr (concat (map (\<lambda>(k, v). k @ '' = '' @ v @ [CHR 0x0A]) items))),
      float_str = decimal_repr\<rparr>"

definition busy_collab :: "unit collab" where
  "busy_collab = ex_collab\<lparr>set_mode := (\<lambda>m mt. Inl (OtherException ''modem busy''))\<rparr>"

definition ex_world :: "unit world" where
  "ex_world =
     \<lparr>modem = \<lparr>modem_name = ''DATAC1'', sample_rate = 8000\<rparr>,
      output_device = \<lparr>db = PFloat (PFin False 0 0), ptt = None, inhibit = None,
                       send_queue = [[1, 2], [3]], internal = ()\<rparr>,
      input_level = Inr (PFin True 305 (- 1)),
      options = [(''c'', PNone), (''mode'', PStr ''DATAC1''),
                 (''output_volume'', PFloat (PFin False 0 0)), (''follow'', PBool False)],
      files = Map.empty\<rparr>"

text \<open>The same state with options that carry no \<^verbatim>\<open>output_volume\<close>.\<close>

definition bare_world :: "unit world" where
  "bare_world = ex_world\<lparr>options := [(''follow'', PBool False)]\<rparr>"



text \<open>A float is finite when it is neither an infinity nor NaN.\<close>

definition is_finite :: "pyfloat \<Rightarrow> bool" where
  "is_finite f = (case f of PFin neg m e \<Rightarrow> True | PInf neg \<Rightarrow> False | PNaN \<Rightarrow> False)"

text \<open>
  The items of the SAVE handler written without the dictionary: one pair for each option
  but \<^verbatim>\<open>c\<close>, in the order of the options.
\<close>

definition save_pairs :: "'i collab \<Rightarrow> (string \<times> pyval) list \<Rightarrow> (string \<times> string) list" where
  "save_pairs C opts =
     map (\<lambda>(k, v). (hyphenate k, if v = PNone then [] else str_of C v))
       (filter (\<lambda>(k, v). k \<noteq> ''c'') opts)"

section \<open>CLEAR among other threads\<close>

text \<open>
  To study the lock, the CLEAR handler is read statement by statement: the call
  of \<^verbatim>\<open>output_device.clear()\<close>, the entry of the \<^verbatim>\<open>with\<close> block (taking the lock, possible
  only when it is free), the assignment of the empty queue, and the exit of the block
  (giving the lock back) before the return. \<open>clear_step\<close> is one such step of the thread
  that runs CLEAR. Between any two of them another thread may run: it can take the lock
  when it is free, and while it holds the lock it can replace the queue and give the lock
  back. A schedule is a list of such actions; \<open>run\<close> is \<open>None\<close> when the schedule asks
  for a step that cannot be taken.
\<close>

datatype clear_pc = AtClear | AtAcquire | AtAssign | AtRelease | Returned string

datatype holder = Clearer | Other

record 'i cstate =
  pc :: clear_pc
  lock :: "holder option"
  device :: "'i output_device"

datatype action = ClearStep | OtherAcquire | OtherWrite "nat list list" | OtherRelease

definition clear_step :: "'i collab \<Rightarrow> 'i cstate \<Rightarrow> 'i cstate option" where
  "clear_step C s =
     (case pc s of
        AtClear \<Rightarrow>
          (case device_clear C (device s) of
             Inl e \<Rightarrow> Some (s\<lparr>pc := Returned (''ERROR Clear failed: '' @ exn_str e)\<rparr>)
           | Inr d \<Rightarrow> Some (s\<lparr>pc := AtAcquire, device := d\<rparr>))
      | AtAcquire \<Rightarrow>
          (if lock s = None then Some (s\<lparr>pc := AtAssign, lock := Some Clearer\<rparr>) else None)
      | AtAssign \<Rightarrow> Some (s\<lparr>pc := AtRelease, device := (device s)\<lparr>send_queue := []\<rparr>\<rparr>)
      | AtRelease \<Rightarrow> Some (s\<lparr>pc := Returned ''OK CLEAR'', lock := None\<rparr>)
      | Returned r \<Rightarrow> None)"

definition exec :: "'i collab \<Rightarrow> action \<Rightarrow> 'i cstate \<Rightarrow> 'i cstate option" where
  "exec C a s =
     (case a of
        ClearStep \<Rightarrow> clear_step C s
      | OtherAcquire \<Rightarrow> (if lock s = None then Some (s\<lparr>lock := Some Other\<rparr>) else None)
      | OtherWrite q \<Rightarrow>
          (if lock s = Some Other then Some (s\<lparr>device := (device s)\<lparr>send_queue := q\<rparr>\<rparr>) else None)
      | OtherRelease \<Rightarrow> (if lock s = Some Other then Some (s\<lparr>lock := None\<rparr>) else None))"

fun run :: "'i collab \<Rightarrow> action list \<Rightarrow> 'i cstate \<Rightarrow> 'i cstate option" where
  "run C [] s = Some s"
| "run C (a # as) s = (case exec C a s of None \<Rightarrow> None | Some s' \<Rightarrow> run C as s')"

definition init :: "'i output_device \<Rightarrow> 'i cstate" where
  "init d = \<lparr>pc = AtClear, lock = None, device = d\<rparr>"

text \<open>
  The CLEAR thread is in its critical section from the entry of the \<^verbatim>\<open>with\<close> block to its
  exit. The invariant of every schedule: it holds the lock exactly there, and after the
  assignment the queue is empty until the lock is given back.
\<close>

definition in_critical :: "'i cstate \<Rightarrow> bool" where
  "in_critical s = (pc s = AtAssign \<or> pc s = AtRelease)"

definition clear_inv :: "'i cstate \<Rightarrow> bool" where
  "clear_inv s =
     ((in_critical s \<longleftrightarrow> lock s = Some Clearer) \<and>
      (pc s = AtRelease \<longrightarrow> send_queue (device s) = []))"

text \<open>An output device with a buffer of its own, which \<^verbatim>\<open>clear()\<close> empties.\<close>

definition buf_collab :: "(nat list) collab" where
  "buf_collab =
     \<lparr>valid_modes = [''DATAC1''],
      set_mode = (\<lambda>m mt. Inr (mt\<lparr>modem_name := m\<rparr>)),
      format_1f = decimal_repr,
      sine_raw = (\<lambda>rate. Inr []),
      write_raw = (\<lambda>raw d. Inr (d\<lparr>internal := internal d @ raw\<rparr>)),
      device_clear = (\<lambda>d. Inr (d\<lparr>internal := []\<rparr>)),
      conf_path = Inr ''/home/pi/.freedvtnc2.conf'',
      open_w = (\<lambda>path. None),
      serialize = (\<lambda>items. Inr []),
      float_str = decimal_repr\<rparr>"

definition buf_device :: "(nat list) output_device" where
  "buf_device = \<lparr>db = PFloat (PFin False 0 0), ptt = None, inhibit = None,
                  send_queue = [[1, 2], [3]], internal = [7, 8, 9]\<rparr>"

section \<open>Upper case and splitting\<close>

lemma of_char_lt_256: "(of_char c :: nat) < 256"
  by (metis of_char_mod_256 mod_less_divisor zero_less_numeral)

lemma of_char_upper_char:
  "(of_char (upper_char c) :: nat) = (let n = of_char c in if 97 \<le> n \<and> n \<le> 122 then n - 32 else n)"
proof -
  have "(of_char c :: nat) - 32 < 256" using of_char_lt_256 [of c] by arith
  then show ?thesis by (simp add: upper_char_def Let_def)
qed

lemma is_space_upper_char: "is_space (upper_char c) = is_space c"
  unfolding is_space_def of_char_upper_char by (auto simp: Let_def)

lemma upper_char_idem: "upper_char (upper_char c) = upper_char c"
proof -
  have "(of_char (upper_char (upper_char c)) :: nat) = of_char (upper_char c)"
    unfolding of_char_upper_char by (auto simp: Let_def)
  then show ?thesis by simp
qed

lemma upper_idem: "upper (upper s) = upper s"
  by (simp add: upper_def upper_char_idem)

lemma upper_Nil_iff: "upper s = [] \<longleftrightarrow> s = []"
  by (simp add: upper_def)

lemma dropWhile_space_upper: "dropWhile is_space (upper s) = upper (dropWhile is_space s)"
  by (induction s) (simp_all add: upper_def is_space_upper_char)

lemma dropWhile_word_upper:
  "dropWhile (\<lambda>c. \<not> is_space c) (upper s) = upper (dropWhile (\<lambda>c. \<not> is_space c) s)"
  by (induction s) (simp_all add: upper_def is_space_upper_char)

lemma takeWhile_word_upper:
  "takeWhile (\<lambda>c. \<not> is_space c) (upper s) = upper (takeWhile (\<lambda>c. \<not> is_space c) s)"
  by (induction s) (simp_all add: upper_def is_space_upper_char)

lemma split_none_1_upper: "split_none_1 (upper s) = map upper (split_none_1 s)"
proof -
  define s1 where "s1 = dropWhile is_space s"
  define w where "w = takeWhile (\<lambda>c. \<not> is_space c) s1"
  define r where "r = dropWhile is_space (dropWhile (\<lambda>c. \<not> is_space c) s1)"
  have L: "split_none_1 s = (if s1 = [] then [] else if r = [] then [w] else [w, r])"
    unfolding split_none_1_def s1_def w_def r_def Let_def ..
  have R: "split_none_1 (upper s) =
      (if upper s1 = [] then [] else if upper r = [] then [upper w] else [upper w, upper r])"
    unfolding split_none_1_def s1_def w_def r_def Let_def dropWhile_space_upper
      dropWhile_word_upper takeWhile_word_upper ..
  show ?thesis unfolding L R upper_Nil_iff by simp
qed

section \<open>Every handler answers with a response line\<close>

lemma is_response_OK: "is_response (''OK '' @ x)"
  by (simp add: is_response_def)

lemma is_response_ERROR: "is_response (''ERROR '' @ x)"
  by (simp add: is_response_def)

lemmas is_response_intros = is_response_OK [simplified] is_response_ERROR [simplified]

lemma cmd_mode_response: "cmd_mode C arg w = Inr (r, w') \<Longrightarrow> is_response r"
  unfolding cmd_mode_def Let_def
  by (auto simp: is_response_intros split: if_splits sum.splits)

lemma cmd_volume_response: "cmd_volume C arg w = Inr (r, w') \<Longrightarrow> is_response r"
  unfolding cmd_volume_def
  by (auto simp: is_response_intros split: if_splits sum.splits option.splits)

lemma cmd_follow_response: "cmd_follow arg w = Inr (r, w') \<Longrightarrow> is_response r"
  unfolding cmd_follow_def Let_def
  by (auto simp: is_response_intros split: if_splits sum.splits)

lemma cmd_status_response: "cmd_status C w = Inr (r, w') \<Longrightarrow> is_response r"
  unfolding cmd_status_def Let_def
  by (auto simp: is_response_intros split: if_splits sum.splits)

lemma cmd_levels_response: "is_response (fst (cmd_levels C w))"
  by (auto simp: cmd_levels_def is_response_intros split: sum.splits)

lemma cmd_ptt_test_response: "is_response (fst (cmd_ptt_test C w))"
  by (auto simp: cmd_ptt_test_def is_response_intros split: sum.splits)

lemma cmd_clear_response: "is_response (fst (cmd_clear C w))"
  by (auto simp: cmd_clear_def is_response_intros split: sum.splits)

lemma cmd_save_response: "is_response (fst (cmd_save C w))"
  by (auto simp: cmd_save_def Let_def is_response_intros split: sum.splits option.splits)

lemma Inr_fst_response: "Inr p = Inr (r, w') \<Longrightarrow> is_response (fst p) \<Longrightarrow> is_response r"
  by auto

lemma dispatch_response:
  assumes "dispatch C cmd arg w = Inr (r, w')"
  shows "is_response r"
  using assms unfolding dispatch_def
  apply (simp only: split: if_splits)
  apply (auto dest: cmd_mode_response cmd_volume_response cmd_follow_response cmd_status_response
      simp: is_response_intros
      intro: Inr_fst_response [OF _ cmd_levels_response] Inr_fst_response [OF _ cmd_ptt_test_response]
       Inr_fst_response [OF _ cmd_clear_response] Inr_fst_response [OF _ cmd_save_response])
  done

lemma ex_line_split: "split_none_1 (upper ''mode datac3'') = [''MODE'', ''DATAC3'']"
  by code_simp

lemma upper_DATAC3: "upper ''DATAC3'' = ''DATAC3''"
  by code_simp

text \<open>
  C1. Whatever the line and whatever the collaborators do, \<open>process_command\<close> returns one
  response, which begins with \<^verbatim>\<open>OK\<close> or \<^verbatim>\<open>ERROR\<close>; and when the handler the line is
  dispatched to raises an exception \<open>e\<close>, the response is \<^verbatim>\<open>ERROR\<close> followed by the message
  of \<open>e\<close>, with the state as it was. (The function is total: no exception leaves it.)
\<close>

theorem process_command_response:
  "is_response (fst (process_command C w line)) \<and>
   (\<forall>cmd rest e. split_none_1 (upper line) = cmd # rest \<longrightarrow>
      dispatch C cmd (case rest of [] \<Rightarrow> [] | a # _ \<Rightarrow> a) w = Inl e \<longrightarrow>
      process_command C w line = (''ERROR '' @ exn_str e, w))"
proof
  show "is_response (fst (process_command C w line))"
  proof (cases "split_none_1 (upper line)")
    case Nil
    then show ?thesis by (simp add: process_command_def is_response_intros)
  next
    case (Cons cmd rest)
    show ?thesis
    proof (cases "dispatch C cmd (case rest of [] \<Rightarrow> [] | a # _ \<Rightarrow> a) w")
      case (Inl e)
      with Cons show ?thesis by (simp add: process_command_def is_response_intros)
    next
      case (Inr p)
      then have "is_response (fst p)"
        using dispatch_response [of C cmd _ w "fst p" "snd p"] by simp
      with Cons Inr show ?thesis by (simp add: process_command_def)
    qed
  qed
next
  show "\<forall>cmd rest e. split_none_1 (upper line) = cmd # rest \<longrightarrow>
      dispatch C cmd (case rest of [] \<Rightarrow> [] | a # _ \<Rightarrow> a) w = Inl e \<longrightarrow>
      process_command C w line = (''ERROR '' @ exn_str e, w)"
    by (simp add: process_command_def)
qed

theorem process_command_response_witness:
  "split_none_1 (upper ''mode datac3'') = [''MODE'', ''DATAC3''] \<and>
   dispatch busy_collab ''MODE'' ''DATAC3'' ex_world = Inl (OtherException ''modem busy'') \<and>
   process_command busy_collab ex_world ''mode datac3'' = (''ERROR modem busy'', ex_world) \<and>
   is_response (fst (process_command busy_collab ex_world ''mode datac3''))"
proof -
  have d: "dispatch busy_collab ''MODE'' ''DATAC3'' ex_world = Inl (OtherException ''modem busy'')"
    by (simp add: dispatch_def cmd_mode_def upper_DATAC3 busy_collab_def ex_collab_def)
  from process_command_response [of busy_collab ex_world "''mode datac3''"] ex_line_split d
  show ?thesis by (simp add: is_response_def)
qed

lemma split_none_1_cases:
  "split_none_1 s = [] \<or>
   (\<exists>v. split_none_1 s = [v] \<and> v \<noteq> []) \<or>
   (\<exists>v a. split_none_1 s = [v, a] \<and> v \<noteq> [] \<and> a \<noteq> [])"
proof -
  define s1 where "s1 = dropWhile is_space s"
  define w where "w = takeWhile (\<lambda>c. \<not> is_space c) s1"
  define r where "r = dropWhile is_space (dropWhile (\<lambda>c. \<not> is_space c) s1)"
  have L: "split_none_1 s = (if s1 = [] then [] else if r = [] then [w] else [w, r])"
    unfolding split_none_1_def s1_def w_def r_def Let_def ..
  have "w \<noteq> []" if "s1 \<noteq> []"
  proof -
    from that have "\<not> is_space (hd s1)" unfolding s1_def by (rule hd_dropWhile)
    with that show ?thesis unfolding w_def by (cases s1) auto
  qed
  then show ?thesis unfolding L by auto
qed

lemma split_none_1_two: "split_none_1 s = [v, a] \<Longrightarrow> v \<noteq> [] \<and> a \<noteq> []"
  using split_none_1_cases [of s] by auto

lemma process_command_two:
  "split_none_1 s = [v, a] \<Longrightarrow>
   process_command C w s =
     (case dispatch C (upper v) (upper a) w of Inl e \<Rightarrow> (''ERROR '' @ exn_str e, w) | Inr r \<Rightarrow> r)"
  by (simp add: process_command_def split_none_1_upper)


lemma dispatch_mode_ok:
  "a \<noteq> [] \<Longrightarrow> upper a \<in> set (valid_modes C) \<Longrightarrow> set_mode C (upper a) (modem w) = Inr mt \<Longrightarrow>
   dispatch C ''MODE'' (upper a) w =
     Inr (''OK MODE '' @ upper a,
          w\<lparr>modem := mt, options := AList.update ''mode'' (PStr (upper a)) (options w)\<rparr>)"
  by (simp add: dispatch_def cmd_mode_def upper_idem upper_Nil_iff Let_def)

lemma dispatch_follow_ok:
  "upper a = ''ON'' \<or> upper a = ''OFF'' \<Longrightarrow>
   \<exists>w'. dispatch C ''FOLLOW'' (upper a) w = Inr (''OK FOLLOW '' @ upper a, w')"
  by (auto simp add: dispatch_def cmd_follow_def upper_idem Let_def)







section \<open>MODE\<close>

lemma split_verb_arg:
  assumes "v \<noteq> []" "\<forall>c\<in>set v. \<not> is_space c" "ws \<noteq> []" "\<forall>c\<in>set ws. is_space c"
    "a \<noteq> []" "\<not> is_space (hd a)"
  shows "split_none_1 (v @ ws @ a) = [v, a]"
proof -
  from assms(1,2) have d1: "dropWhile is_space (v @ ws @ a) = v @ ws @ a"
    by (cases v) auto
  from assms(3,4) have hw: "is_space (hd ws)" by (cases ws) auto
  have t: "takeWhile (\<lambda>c. \<not> is_space c) (v @ ws @ a) = v"
    using assms(2,3) hw by (cases ws) (auto simp: takeWhile_append)
  have d2: "dropWhile (\<lambda>c. \<not> is_space c) (v @ ws @ a) = ws @ a"
    using assms(2,3) hw by (cases ws) (auto simp: dropWhile_append)
  have d3: "dropWhile is_space (ws @ a) = a"
    using assms(4,5,6) by (cases a) (auto simp: dropWhile_append)
  show ?thesis
    unfolding split_none_1_def Let_def d1 t d2 d3 using assms(1,5) by simp
qed

lemma upper_MODE: "upper ''MODE'' = ''MODE''"
  by code_simp

lemma split_MODE: "split_none_1 ''MODE'' = [''MODE'']"
  by code_simp

lemma process_command_mode_query:
  "process_command C w ''MODE'' = (''OK MODE '' @ modem_name (modem w), w)"
  by (simp add: process_command_def upper_MODE split_MODE dispatch_def cmd_mode_def)

lemma cmd_mode_invalid:
  "arg \<noteq> [] \<Longrightarrow> upper arg \<notin> set (valid_modes C) \<Longrightarrow>
   cmd_mode C arg w = Inr (''ERROR Invalid mode. Valid: '' @ join_comma (valid_modes C), w)"
  by (simp add: cmd_mode_def Let_def)

text \<open>
  C6 (amended). For every line of ASCII characters with the verb MODE: when the argument,
  put in upper case as the handler compares it, is not in the list of valid modes, the
  response is the error whose text lists the valid modes, each once and in their order,
  separated by commas; the state of the collaborators (the mode of the modem and the
  options among it) is unchanged, so that a MODE query that follows reports the mode that
  was active before.
\<close>

theorem mode_invalid_rejected:
  assumes "ascii line" and "split_none_1 line = [v, a]" and "upper v = ''MODE''"
    and "upper a \<notin> set (valid_modes C)"
  shows "process_command C w line =
           (''ERROR Invalid mode. Valid: '' @ join_comma (valid_modes C), w) \<and>
         process_command C (snd (process_command C w line)) ''MODE'' =
           (''OK MODE '' @ modem_name (modem w), w)"
proof -
  from assms(2) have "a \<noteq> []" by (simp add: split_none_1_two)
  then have "upper a \<noteq> []" by (simp add: upper_Nil_iff)
  with assms(4) have "cmd_mode C (upper a) w =
      Inr (''ERROR Invalid mode. Valid: '' @ join_comma (valid_modes C), w)"
    by (simp add: cmd_mode_invalid upper_idem)
  with assms(2,3) have "process_command C w line =
      (''ERROR Invalid mode. Valid: '' @ join_comma (valid_modes C), w)"
    by (simp add: process_command_two dispatch_def)
  then show ?thesis by (simp add: process_command_mode_query)
qed

lemma split_mode_bogus: "split_none_1 ''MODE bogus'' = [''MODE'', ''bogus'']"
  by code_simp

lemma ascii_mode_bogus: "ascii ''MODE bogus''"
  by (simp add: ascii_def)

lemma upper_bogus: "upper ''bogus'' = ''BOGUS''"
  by code_simp

theorem mode_invalid_rejected_witness:
  "process_command ex_collab ex_world ''MODE bogus'' =
     (''ERROR Invalid mode. Valid: DATAC1, DATAC3, DATAC4'', ex_world) \<and>
   process_command ex_collab (snd (process_command ex_collab ex_world ''MODE bogus'')) ''MODE'' =
     (''OK MODE DATAC1'', ex_world)"
proof -
  have v: "upper ''bogus'' \<notin> set (valid_modes ex_collab)"
    by (simp add: upper_bogus ex_collab_def)
  have j: "join_comma (valid_modes ex_collab) = ''DATAC1, DATAC3, DATAC4''"
    by (simp add: ex_collab_def)
  have n: "modem_name (modem ex_world) = ''DATAC1''"
    by (simp add: ex_world_def)
  from mode_invalid_rejected [OF ascii_mode_bogus split_mode_bogus upper_MODE v, of ex_world]
  show ?thesis unfolding j n by auto
qed

text \<open>
  C6 as stated fails for an argument that is not in the list of valid modes while its
  upper-case form is: the argument \<^verbatim>\<open>datac3\<close> is not a valid mode name, and \<^verbatim>\<open>MODE datac3\<close>
  is answered with \<^verbatim>\<open>OK\<close> and changes the mode of the modem.
\<close>

theorem mode_not_member_counterexample:
  "''datac3'' \<notin> set (valid_modes ex_collab) \<and>
   fst (process_command ex_collab ex_world ''MODE datac3'') = ''OK MODE DATAC3'' \<and>
   modem_name (modem (snd (process_command ex_collab ex_world ''MODE datac3''))) = ''DATAC3'' \<and>
   modem_name (modem ex_world) = ''DATAC1''"
proof -
  have sp: "split_none_1 (upper ''MODE datac3'') = [''MODE'', ''DATAC3'']"
    by code_simp
  have "process_command ex_collab ex_world ''MODE datac3'' =
     (''OK MODE DATAC3'',
      ex_world\<lparr>modem := (modem ex_world)\<lparr>modem_name := ''DATAC3''\<rparr>,
               options := AList.update ''mode'' (PStr ''DATAC3'') (options ex_world)\<rparr>)"
    by (simp add: process_command_def sp dispatch_def cmd_mode_def upper_DATAC3
        ex_collab_def Let_def)
  then show ?thesis by (simp add: ex_collab_def ex_world_def)
qed


lemma upper_DATAC4: "upper ''DATAC4'' = ''DATAC4''"
  by code_simp





section \<open>STATUS\<close>

lemma upper_STATUS: "upper ''STATUS'' = ''STATUS''"
  by code_simp

lemma split_STATUS: "split_none_1 ''STATUS'' = [''STATUS'']"
  by code_simp

lemma process_command_status:
  "process_command C w ''STATUS'' =
     (case cmd_status C w of Inl e \<Rightarrow> (''ERROR '' @ exn_str e, w) | Inr r \<Rightarrow> r)"
  by (simp add: process_command_def upper_STATUS split_STATUS dispatch_def)

text \<open>
  C8 (amended). In every state of the collaborators whose options carry \<^verbatim>\<open>output_volume\<close>
  and \<^verbatim>\<open>follow\<close>, STATUS answers with one \<^verbatim>\<open>OK STATUS\<close> line holding the five fields MODE,
  VOLUME, FOLLOW, PTT and CHANNEL in that order, and leaves the state alone; PTT is
  \<^verbatim>\<open>OFF\<close> and CHANNEL is \<^verbatim>\<open>CLEAR\<close> when the output device has no \<^verbatim>\<open>ptt\<close> or \<^verbatim>\<open>inhibit\<close>
  attribute. When the options lack one of the two, the answer is an \<^verbatim>\<open>ERROR\<close> line with
  the message of the \<^verbatim>\<open>AttributeError\<close>.
\<close>

theorem status_five_fields:
  "(map_of (options w) ''output_volume'' = Some vol \<and> map_of (options w) ''follow'' = Some f \<longrightarrow>
      process_command C w ''STATUS'' =
        (''OK STATUS MODE='' @ modem_name (modem w) @
         '' VOLUME='' @ str_of C vol @
         '' FOLLOW='' @ (if truthy f then ''ON'' else ''OFF'') @
         '' PTT='' @ (case ptt (output_device w) of
                        None \<Rightarrow> ''OFF''
                      | Some p \<Rightarrow> if truthy p then ''ON'' else ''OFF'') @
         '' CHANNEL='' @ (case inhibit (output_device w) of
                            None \<Rightarrow> ''CLEAR''
                          | Some b \<Rightarrow> if truthy b then ''BUSY'' else ''CLEAR''), w)) \<and>
   (map_of (options w) ''output_volume'' = None \<longrightarrow>
      process_command C w ''STATUS'' = (''ERROR '' @ no_attribute ''output_volume'', w)) \<and>
   (map_of (options w) ''output_volume'' = Some vol \<and> map_of (options w) ''follow'' = None \<longrightarrow>
      process_command C w ''STATUS'' = (''ERROR '' @ no_attribute ''follow'', w))"
  unfolding process_command_status
  by (simp add: cmd_status_def get_attr_def getattr_flag_def Let_def split: option.splits)

theorem status_five_fields_witness:
  "process_command ex_collab ex_world ''STATUS'' =
     (''OK STATUS MODE=DATAC1 VOLUME=0.0 FOLLOW=OFF PTT=OFF CHANNEL=CLEAR'', ex_world)"
proof -
  have a: "map_of (options ex_world) ''output_volume'' = Some (PFloat (PFin False 0 0))"
    by (simp add: ex_world_def)
  have b: "map_of (options ex_world) ''follow'' = Some (PBool False)"
    by (simp add: ex_world_def)
  have c: "modem_name (modem ex_world) = ''DATAC1''" "ptt (output_device ex_world) = None"
    "inhibit (output_device ex_world) = None"
    by (simp_all add: ex_world_def)
  have d: "str_of ex_collab (PFloat (PFin False 0 0)) = ''0.0''"
    by (simp add: str_of_def float_repr_def covered_def decimal_repr_def)
  from status_five_fields [of ex_world "PFloat (PFin False 0 0)" "PBool False" ex_collab] a b
  show ?thesis
    unfolding c d by simp
qed

text \<open>
  C8 as stated fails in a state whose options carry no \<^verbatim>\<open>output_volume\<close>: reading the
  attribute raises, and the dispatcher answers with an \<^verbatim>\<open>ERROR\<close> line, not with the five
  fields.
\<close>

theorem status_missing_option_counterexample:
  "map_of (options bare_world) ''output_volume'' = None \<and>
   fst (process_command ex_collab bare_world ''STATUS'') =
     ''ERROR '' @ no_attribute ''output_volume'' \<and>
   take 3 (fst (process_command ex_collab bare_world ''STATUS'')) \<noteq> ''OK ''"
proof -
  have a: "map_of (options bare_world) ''output_volume'' = None"
    by (simp add: bare_world_def)
  then have "cmd_status ex_collab bare_world = Inl (AttributeError (no_attribute ''output_volume''))"
    by (simp add: cmd_status_def get_attr_def)
  then have "process_command ex_collab bare_world ''STATUS'' =
      (''ERROR '' @ no_attribute ''output_volume'', bare_world)"
    by (simp add: process_command_status)
  with a show ?thesis by simp
qed

section \<open>VOLUME\<close>

lemma dispatch_volume_set:
  "a \<noteq> [] \<Longrightarrow> py_float a = Some f \<Longrightarrow>
   dispatch C ''VOLUME'' a w =
     Inr (''OK VOLUME '' @ float_repr C f,
          w\<lparr>output_device := (output_device w)\<lparr>db := PFloat f\<rparr>,
            options := AList.update ''output_volume'' (PFloat f) (options w)\<rparr>)"
  by (simp add: dispatch_def cmd_volume_def)

lemma float_repr_PNaN: "float_repr C PNaN = ''nan''"
  by (simp add: float_repr_def covered_def decimal_repr_def)

lemma float_repr_PInf: "float_repr C (PInf False) = ''inf''"
  by (simp add: float_repr_def covered_def decimal_repr_def)

lemma split_volume_nan: "split_none_1 (upper ''VOLUME nan'') = [''VOLUME'', ''NAN'']"
  by code_simp

lemma py_float_NAN: "py_float ''NAN'' = Some PNaN"
  by code_simp

lemma split_volume_inf: "split_none_1 (upper ''VOLUME inf'') = [''VOLUME'', ''INF'']"
  by code_simp

lemma py_float_INF: "py_float ''INF'' = Some (PInf False)"
  by code_simp

text \<open>
  C4. The handler does not keep the volume finite: in every state of the collaborators
  the line \<^verbatim>\<open>VOLUME nan\<close> is answered with \<^verbatim>\<open>OK VOLUME nan\<close>, and NaN is stored as the gain of
  the output device and as the \<^verbatim>\<open>output_volume\<close> option. The handler's own error message
  asks for a number; the check that would turn NaN away is missing.
\<close>

theorem volume_nan_accepted:
  "process_command C w ''VOLUME nan'' =
     (''OK VOLUME nan'',
      w\<lparr>output_device := (output_device w)\<lparr>db := PFloat PNaN\<rparr>,
        options := AList.update ''output_volume'' (PFloat PNaN) (options w)\<rparr>) \<and>
   map_of (AList.update ''output_volume'' (PFloat PNaN) (options w)) ''output_volume'' =
     Some (PFloat PNaN) \<and>
   \<not> is_finite PNaN"
proof -
  have "dispatch C ''VOLUME'' ''NAN'' w =
     Inr (''OK VOLUME '' @ float_repr C PNaN,
          w\<lparr>output_device := (output_device w)\<lparr>db := PFloat PNaN\<rparr>,
            options := AList.update ''output_volume'' (PFloat PNaN) (options w)\<rparr>)"
    using py_float_NAN by (intro dispatch_volume_set) simp_all
  then show ?thesis
    by (simp add: process_command_def split_volume_nan float_repr_PNaN AList.update_conv'
        is_finite_def)
qed

text \<open>
  C7. An argument that is no real number is not always turned away: in every state of
  the collaborators the line \<^verbatim>\<open>VOLUME inf\<close> is answered with \<^verbatim>\<open>OK VOLUME inf\<close>, and the gain of
  the output device and the \<^verbatim>\<open>output_volume\<close> option become infinite.
\<close>

theorem volume_inf_accepted:
  "process_command C w ''VOLUME inf'' =
     (''OK VOLUME inf'',
      w\<lparr>output_device := (output_device w)\<lparr>db := PFloat (PInf False)\<rparr>,
        options := AList.update ''output_volume'' (PFloat (PInf False)) (options w)\<rparr>) \<and>
   \<not> is_finite (PInf False)"
proof -
  have "dispatch C ''VOLUME'' ''INF'' w =
     Inr (''OK VOLUME '' @ float_repr C (PInf False),
          w\<lparr>output_device := (output_device w)\<lparr>db := PFloat (PInf False)\<rparr>,
            options := AList.update ''output_volume'' (PFloat (PInf False)) (options w)\<rparr>)"
    using py_float_INF by (intro dispatch_volume_set) simp_all
  then show ?thesis
    by (simp add: process_command_def split_volume_inf float_repr_PInf is_finite_def)
qed

section \<open>Splitting and echo\<close>

text \<open>
  C3 (amended). For a line of ASCII characters made of a verb, a run of white space and
  an argument (which may hold more white space), the
  dispatcher puts the whole line in upper case, splits it at that first run of white
  space and hands the upper-cased argument to the handler. The responses echo that form:
  MODE echoes the upper-cased mode name, FOLLOW echoes \<^verbatim>\<open>ON\<close> or \<^verbatim>\<open>OFF\<close>, and VOLUME echoes
  \<^verbatim>\<open>str\<close> of the float read from the argument.
\<close>

theorem dispatcher_split_and_echo:
  assumes "ascii (v @ ws @ a)" and "v \<noteq> []" and "\<forall>c\<in>set v. \<not> is_space c"
    and "ws \<noteq> []" and "\<forall>c\<in>set ws. is_space c"
    and "a \<noteq> []" and "\<not> is_space (hd a)"
  shows "split_none_1 (upper (v @ ws @ a)) = [upper v, upper a] \<and>
         process_command C w (v @ ws @ a) =
           (case dispatch C (upper v) (upper a) w of
              Inl e \<Rightarrow> (''ERROR '' @ exn_str e, w)
            | Inr r \<Rightarrow> r) \<and>
         (upper v = ''MODE'' \<and> upper a \<in> set (valid_modes C) \<and>
            set_mode C (upper a) (modem w) = Inr mt \<longrightarrow>
            fst (process_command C w (v @ ws @ a)) = ''OK MODE '' @ upper a) \<and>
         (upper v = ''VOLUME'' \<and> py_float (upper a) = Some f \<longrightarrow>
            fst (process_command C w (v @ ws @ a)) = ''OK VOLUME '' @ float_repr C f) \<and>
         (upper v = ''FOLLOW'' \<and> (upper a = ''ON'' \<or> upper a = ''OFF'') \<longrightarrow>
            fst (process_command C w (v @ ws @ a)) = ''OK FOLLOW '' @ upper a)"
proof -
  have sp: "split_none_1 (v @ ws @ a) = [v, a]"
    using assms(2-7) by (rule split_verb_arg)
  have p: "process_command C w (v @ ws @ a) =
           (case dispatch C (upper v) (upper a) w of
              Inl e \<Rightarrow> (''ERROR '' @ exn_str e, w)
            | Inr r \<Rightarrow> r)"
    using sp by (rule process_command_two)
  have ua: "upper a \<noteq> []" using assms(6) by (simp add: upper_Nil_iff)
  have m: "fst (process_command C w (v @ ws @ a)) = ''OK MODE '' @ upper a"
    if "upper v = ''MODE'' \<and> upper a \<in> set (valid_modes C) \<and> set_mode C (upper a) (modem w) = Inr mt"
    unfolding p using that dispatch_mode_ok [of a C w mt] assms(6) by simp
  have vo: "fst (process_command C w (v @ ws @ a)) = ''OK VOLUME '' @ float_repr C f"
    if "upper v = ''VOLUME'' \<and> py_float (upper a) = Some f"
    unfolding p using that dispatch_volume_set [of "upper a" f C w] ua by simp
  have fo: "fst (process_command C w (v @ ws @ a)) = ''OK FOLLOW '' @ upper a"
    if "upper v = ''FOLLOW'' \<and> (upper a = ''ON'' \<or> upper a = ''OFF'')"
  proof -
    from that dispatch_follow_ok [of a C w] obtain w' where
      "dispatch C ''FOLLOW'' (upper a) w = Inr (''OK FOLLOW '' @ upper a, w')" by blast
    with that show ?thesis unfolding p by simp
  qed
  from sp p m vo fo show ?thesis
    by (simp add: split_none_1_upper)
qed

lemma upper_volume: "upper ''volume'' = ''VOLUME''"
  by code_simp

lemma upper_2e3: "upper ''2e3'' = ''2E3''"
  by code_simp

lemma py_float_2E3: "py_float ''2E3'' = Some (PFin False 2 3)"
  by code_simp

lemma covered_2E3: "covered (PFin False 2 3)"
  by code_simp

lemma decimal_repr_2E3: "decimal_repr (PFin False 2 3) = ''2000.0''"
  by code_simp

lemma float_repr_2E3: "float_repr C (PFin False 2 3) = ''2000.0''"
  by (simp add: float_repr_def covered_2E3 decimal_repr_2E3)

lemma ascii_volume_2e3: "ascii (''volume'' @ ''   '' @ ''2e3'')"
  by (simp add: ascii_def)

theorem dispatcher_split_and_echo_witness:
  "split_none_1 (upper ''volume   2e3'') = [''VOLUME'', ''2E3''] \<and>
   fst (process_command ex_collab ex_world ''volume   2e3'') = ''OK VOLUME 2000.0''"
proof -
  have a: "\<forall>c\<in>set ''volume''. \<not> is_space c" by (simp add: is_space_def)
  have b: "\<forall>c\<in>set ''   ''. is_space c" by (simp add: is_space_def)
  have c: "\<not> is_space (hd ''2e3'')" by (simp add: is_space_def)
  from dispatcher_split_and_echo [OF ascii_volume_2e3 _ a _ b _ c, of ex_collab ex_world _ "PFin False 2 3"]
  have s: "split_none_1 (upper (''volume'' @ ''   '' @ ''2e3'')) = [upper ''volume'', upper ''2e3'']"
    and e: "upper ''volume'' = ''VOLUME'' \<and> py_float (upper ''2e3'') = Some (PFin False 2 3) \<longrightarrow>
      fst (process_command ex_collab ex_world (''volume'' @ ''   '' @ ''2e3'')) =
        ''OK VOLUME '' @ float_repr ex_collab (PFin False 2 3)"
    by blast+
  from e have "fst (process_command ex_collab ex_world (''volume'' @ ''   '' @ ''2e3'')) =
        ''OK VOLUME '' @ float_repr ex_collab (PFin False 2 3)"
    unfolding upper_volume upper_2e3 using py_float_2E3 by blast
  with s show ?thesis
    unfolding upper_volume upper_2e3 float_repr_2E3 by simp
qed

lemma split_Mode_DataC4: "split_none_1 (upper ''Mode DataC4'') = [''MODE'', ''DATAC4'']"
  by code_simp

lemma split_volume_5: "split_none_1 (upper ''VOLUME 5'') = [''VOLUME'', ''5'']"
  by code_simp

lemma py_float_5: "py_float ''5'' = Some (PFin False 5 0)"
  by code_simp

lemma covered_5: "covered (PFin False 5 0)"
  by code_simp

lemma decimal_repr_5: "decimal_repr (PFin False 5 0) = ''5.0''"
  by code_simp

lemma float_repr_5: "float_repr C (PFin False 5 0) = ''5.0''"
  by (simp add: float_repr_def covered_5 decimal_repr_5)

text \<open>
  C3 as stated fails: the argument is not passed on and echoed as the client sent it. A
  mode name comes back in upper case and a volume comes back as Python prints the float.
\<close>

theorem echo_verbatim_counterexample:
  "fst (process_command ex_collab ex_world ''Mode DataC4'') = ''OK MODE DATAC4'' \<and>
   ''OK MODE DATAC4'' \<noteq> ''OK MODE DataC4'' \<and>
   fst (process_command ex_collab ex_world ''VOLUME 5'') = ''OK VOLUME 5.0'' \<and>
   ''OK VOLUME 5.0'' \<noteq> ''OK VOLUME 5''"
proof -
  have m: "fst (process_command ex_collab ex_world ''Mode DataC4'') = ''OK MODE DATAC4''"
    by (simp add: process_command_def split_Mode_DataC4 dispatch_def cmd_mode_def upper_DATAC4
        ex_collab_def Let_def)
  have v: "fst (process_command ex_collab ex_world ''VOLUME 5'') = ''OK VOLUME 5.0''"
    using dispatch_volume_set [of "''5''" "PFin False 5 0" ex_collab ex_world]
    by (simp add: process_command_def split_volume_5 py_float_5 float_repr_5)
  from m v show ?thesis by simp
qed

section \<open>SAVE\<close>

lemma hyphenate_inj:
  "CHR ''-'' \<notin> set a \<Longrightarrow> CHR ''-'' \<notin> set b \<Longrightarrow> hyphenate a = hyphenate b \<Longrightarrow> a = b"
proof (induction a arbitrary: b)
  case Nil
  then show ?case by (simp add: hyphenate_def)
next
  case (Cons x xs)
  then obtain y ys where b: "b = y # ys" by (cases b) (auto simp: hyphenate_def)
  with Cons.prems have "x = y" by (auto simp: hyphenate_def split: if_splits)
  moreover from Cons.prems b have "hyphenate xs = hyphenate ys" by (simp add: hyphenate_def)
  with Cons.IH [of ys] Cons.prems b have "xs = ys" by simp
  ultimately show ?case using b by simp
qed

lemma update_fresh: "k \<notin> fst ` set d \<Longrightarrow> AList.update k s d = d @ [(k, s)]"
  by (induction d) auto

lemma fold_update_fresh:
  "distinct (map fst ys) \<Longrightarrow> fst ` set ys \<inter> fst ` set d = {} \<Longrightarrow>
   fold (\<lambda>(k, s) d. AList.update k s d) ys d = d @ ys"
proof (induction ys arbitrary: d)
  case Nil
  then show ?case by simp
next
  case (Cons y ys)
  obtain k s where y: "y = (k, s)" by (cases y)
  from Cons.prems y have k: "k \<notin> fst ` set d" by auto
  have "fst ` set ys \<inter> fst ` set (d @ [(k, s)]) = {}"
    using Cons.prems y by auto
  with Cons.IH [of "d @ [(k, s)]"] Cons.prems y update_fresh [OF k, of s]
  show ?case by simp
qed

lemma fold_update_keys:
  "fst ` set (fold (\<lambda>(k, s) d. AList.update k s d) ys d) = fst ` set d \<union> fst ` set ys"
proof (induction ys arbitrary: d)
  case Nil
  then show ?case by simp
next
  case (Cons y ys)
  obtain k s where y: "y = (k, s)" by (cases y)
  show ?case unfolding y using Cons.IH [of "AList.update k s d"]
    by (auto simp: AList.dom_update)
qed

lemma set_update_subset: "set (AList.update k s d) \<subseteq> insert (k, s) (set d)"
  by (induction d) auto

lemma fold_update_set:
  "set (fold (\<lambda>(k, s) d. AList.update k s d) ys d) \<subseteq> set d \<union> set ys"
proof (induction ys arbitrary: d)
  case Nil
  then show ?case by simp
next
  case (Cons y ys)
  obtain k s where y: "y = (k, s)" by (cases y)
  show ?case unfolding y using Cons.IH [of "AList.update k s d"] set_update_subset [of k s d]
    by auto
qed

lemma fold_save_value:
  "fold (\<lambda>(key, v) d. AList.update (hyphenate key) (save_value C v) d) xs d =
   fold (\<lambda>(k, s) d. AList.update k s d)
     (map (\<lambda>(k, v). (hyphenate k, if v = PNone then [] else str_of C v)) xs) d"
  by (induction xs arbitrary: d) (simp_all add: save_value_def case_prod_beta)

lemma save_items_fold:
  "save_items C opts = fold (\<lambda>(k, s) d. AList.update k s d) (save_pairs C opts) []"
  unfolding save_items_def save_pairs_def by (rule fold_save_value)

lemma save_pairs_keys:
  "map fst (save_pairs C opts) = map hyphenate (filter (\<lambda>k. k \<noteq> ''c'') (map fst opts))"
  unfolding save_pairs_def by (induction opts) (simp_all add: case_prod_beta)

lemma save_items_keys:
  "fst ` set (save_items C opts) = hyphenate ` {k \<in> fst ` set opts. k \<noteq> ''c''}"
proof -
  have "fst ` set (save_items C opts) = set (map fst (save_pairs C opts))"
    unfolding save_items_fold fold_update_keys by simp
  also have "\<dots> = hyphenate ` set (filter (\<lambda>k. k \<noteq> ''c'') (map fst opts))"
    unfolding save_pairs_keys by simp
  also have "set (filter (\<lambda>k. k \<noteq> ''c'') (map fst opts)) = {k \<in> fst ` set opts. k \<noteq> ''c''}"
    by simp
  finally show ?thesis .
qed

lemma save_pairs_values:
  "(k', s) \<in> set (save_pairs C opts) \<Longrightarrow>
   \<exists>(k, v) \<in> set opts. k \<noteq> ''c'' \<and> k' = hyphenate k \<and> s = (if v = PNone then [] else str_of C v)"
  unfolding save_pairs_def by (induction opts) (auto split: if_splits)

lemma save_items_values:
  assumes "(k', s) \<in> set (save_items C opts)"
  shows "\<exists>(k, v) \<in> set opts. k \<noteq> ''c'' \<and> k' = hyphenate k \<and> s = (if v = PNone then [] else str_of C v)"
proof -
  from assms fold_update_set [of "save_pairs C opts" "[]"]
  have "(k', s) \<in> set (save_pairs C opts)" unfolding save_items_fold by auto
  then show ?thesis by (rule save_pairs_values)
qed

lemma save_items_exact:
  assumes "distinct (map fst opts)" and "\<forall>k \<in> fst ` set opts. CHR ''-'' \<notin> set k"
  shows "save_items C opts = save_pairs C opts"
proof -
  have inj: "inj_on hyphenate (fst ` set opts)"
    using assms(2) by (auto intro!: inj_onI hyphenate_inj)
  define F where "F = filter (\<lambda>(k, v). k \<noteq> ''c'') opts"
  have m: "map fst (save_pairs C opts) = map hyphenate (map fst F)"
    unfolding save_pairs_def F_def by (simp add: comp_def case_prod_beta)
  have d: "distinct (map fst F)"
    unfolding F_def using assms(1) by (rule distinct_map_filter)
  have i: "inj_on hyphenate (set (map fst F))"
    using inj by (rule inj_on_subset) (auto simp: F_def)
  from d i have "distinct (map hyphenate (map fst F))"
    unfolding distinct_map [of hyphenate "map fst F"] by blast
  then have "distinct (map fst (save_pairs C opts))"
    unfolding m .
  then show ?thesis unfolding save_items_fold by (simp add: fold_update_fresh)
qed

text \<open>
  C9. When SAVE succeeds, the response is \<^verbatim>\<open>OK SAVE\<close> followed by the path of
  \<^verbatim>\<open>.freedvtnc2.conf\<close> in the home directory (the string that \<^verbatim>\<open>pathlib\<close> gives for it,
  \<open>conf_path\<close>), and the file at that path holds what the
  serializer returns for the items built from the options. The keys of the items are the
  option names other than \<^verbatim>\<open>c\<close>, with underscores replaced by hyphens; every value is the
  string of the value of such an option, the empty string for \<^verbatim>\<open>None\<close>. When the option
  names are distinct and free of hyphens (they are attribute names), the items are one
  pair for each option but \<^verbatim>\<open>c\<close>, in the order of the options.
\<close>

theorem save_serializes_options:
  assumes "take 3 (fst (cmd_save C w)) = ''OK ''"
  shows "\<exists>path content. conf_path C = Inr path \<and> serialize C (save_items C (options w)) = Inr content \<and>
           cmd_save C w = (''OK SAVE '' @ path, w\<lparr>files := (files w)(path \<mapsto> content)\<rparr>) \<and>
           fst ` set (save_items C (options w)) = hyphenate ` {k \<in> fst ` set (options w). k \<noteq> ''c''} \<and>
           (\<forall>(k', s) \<in> set (save_items C (options w)).
              \<exists>(k, v) \<in> set (options w).
                k \<noteq> ''c'' \<and> k' = hyphenate k \<and> s = (if v = PNone then [] else str_of C v)) \<and>
           (distinct (map fst (options w)) \<and> (\<forall>k \<in> fst ` set (options w). CHR ''-'' \<notin> set k) \<longrightarrow>
              save_items C (options w) =
                map (\<lambda>(k, v). (hyphenate k, if v = PNone then [] else str_of C v))
                  (filter (\<lambda>(k, v). k \<noteq> ''c'') (options w)))"
proof -
  from assms obtain path where h: "conf_path C = Inr path"
    by (cases "conf_path C") (auto simp: cmd_save_def)
  from assms h have o: "open_w C path = None"
    by (cases "open_w C path") (auto simp: cmd_save_def)
  from assms h o obtain content where t: "serialize C (save_items C (options w)) = Inr content"
    by (cases "serialize C (save_items C (options w))") (auto simp: cmd_save_def Let_def)
  from h o t have r: "cmd_save C w =
      (''OK SAVE '' @ path, w\<lparr>files := (files w)(path \<mapsto> content)\<rparr>)"
    by (simp add: cmd_save_def Let_def)
  have v: "\<forall>(k', s) \<in> set (save_items C (options w)).
              \<exists>(k, v) \<in> set (options w).
                k \<noteq> ''c'' \<and> k' = hyphenate k \<and> s = (if v = PNone then [] else str_of C v)"
  proof (rule ballI)
    fix p assume p: "p \<in> set (save_items C (options w))"
    obtain k' s where ks: "p = (k', s)" by (cases p)
    from p show "case p of (k', s) \<Rightarrow>
              \<exists>(k, v) \<in> set (options w).
                k \<noteq> ''c'' \<and> k' = hyphenate k \<and> s = (if v = PNone then [] else str_of C v)"
      unfolding ks using save_items_values [of k' s C "options w"] by simp
  qed
  have e: "distinct (map fst (options w)) \<and> (\<forall>k \<in> fst ` set (options w). CHR ''-'' \<notin> set k) \<longrightarrow>
              save_items C (options w) =
                map (\<lambda>(k, v). (hyphenate k, if v = PNone then [] else str_of C v))
                  (filter (\<lambda>(k, v). k \<noteq> ''c'') (options w))"
  proof
    assume a: "distinct (map fst (options w)) \<and> (\<forall>k \<in> fst ` set (options w). CHR ''-'' \<notin> set k)"
    from a have "save_items C (options w) = save_pairs C (options w)"
      by (intro save_items_exact) simp_all
    then show "save_items C (options w) =
                map (\<lambda>(k, v). (hyphenate k, if v = PNone then [] else str_of C v))
                  (filter (\<lambda>(k, v). k \<noteq> ''c'') (options w))"
      unfolding save_pairs_def .
  qed
  show ?thesis
  proof (intro exI conjI)
    show "conf_path C = Inr path" by (rule h)
    show "serialize C (save_items C (options w)) = Inr content" by (rule t)
    show "cmd_save C w =
      (''OK SAVE '' @ path, w\<lparr>files := (files w)(path \<mapsto> content)\<rparr>)" by (rule r)
    show "fst ` set (save_items C (options w)) = hyphenate ` {k \<in> fst ` set (options w). k \<noteq> ''c''}"
      by (rule save_items_keys)
  qed (rule v, rule e)
qed

lemma ex_save_items:
  "save_items ex_collab (options ex_world) =
     [(''mode'', ''DATAC1''), (''output-volume'', ''0.0''), (''follow'', ''False'')]"
  by (simp add: save_items_def ex_world_def hyphenate_def save_value_def str_of_def
      float_repr_def covered_def decimal_repr_def)

theorem save_serializes_options_witness:
  "fst (cmd_save ex_collab ex_world) = ''OK SAVE /home/pi/.freedvtnc2.conf'' \<and>
   save_items ex_collab (options ex_world) =
     [(''mode'', ''DATAC1''), (''output-volume'', ''0.0''), (''follow'', ''False'')] \<and>
   files (snd (cmd_save ex_collab ex_world)) ''/home/pi/.freedvtnc2.conf'' =
     Some (''mode = DATAC1'' @ [CHR 0x0A] @ ''output-volume = 0.0'' @ [CHR 0x0A] @
           ''follow = False'' @ [CHR 0x0A])"
proof -
  have ok: "take 3 (fst (cmd_save ex_collab ex_world)) = ''OK ''"
    by (simp add: cmd_save_def ex_collab_def Let_def)
  from save_serializes_options [OF ok] obtain h content where
    h: "conf_path ex_collab = Inr h" and t: "serialize ex_collab (save_items ex_collab (options ex_world)) = Inr content"
    and r: "cmd_save ex_collab ex_world =
      (''OK SAVE '' @ h, ex_world\<lparr>files := (files ex_world)(h \<mapsto> content)\<rparr>)"
    by blast
  from h have h': "h = ''/home/pi/.freedvtnc2.conf''" by (simp add: ex_collab_def)
  from t have t': "content = ''mode = DATAC1'' @ [CHR 0x0A] @ ''output-volume = 0.0'' @ [CHR 0x0A] @
           ''follow = False'' @ [CHR 0x0A]"
    unfolding ex_save_items by (simp add: ex_collab_def)
  show ?thesis
    unfolding r h' t' ex_save_items by simp
qed

section \<open>CLEAR and the lock of the queue\<close>

lemma clear_inv_init: "clear_inv (init d)"
  by (simp add: clear_inv_def in_critical_def init_def)

lemma clear_inv_exec:
  assumes "clear_inv s" and "exec C a s = Some s'"
  shows "clear_inv s'"
proof (cases a)
  case ClearStep
  with assms show ?thesis
    by (cases "pc s")
      (auto simp: exec_def clear_step_def clear_inv_def in_critical_def
        split: sum.splits if_splits)
next
  case OtherAcquire
  with assms show ?thesis
    by (auto simp: exec_def clear_inv_def in_critical_def split: if_splits)
next
  case (OtherWrite q)
  with assms show ?thesis
    by (auto simp: exec_def clear_inv_def in_critical_def split: if_splits)
next
  case OtherRelease
  with assms show ?thesis
    by (auto simp: exec_def clear_inv_def in_critical_def split: if_splits)
qed

lemma clear_inv_run: "clear_inv s \<Longrightarrow> run C sched s = Some s' \<Longrightarrow> clear_inv s'"
proof (induction sched arbitrary: s)
  case Nil
  then show ?case by simp
next
  case (Cons a as)
  then obtain s1 where e: "exec C a s = Some s1" and r: "run C as s1 = Some s'"
    by (auto split: option.splits)
  from Cons.prems(1) e have "clear_inv s1" by (rule clear_inv_exec)
  then show ?case using r by (rule Cons.IH)
qed

text \<open>
  C2 (amended). In every state that a schedule reaches from the start of CLEAR: when the
  CLEAR thread is about to assign the empty queue it holds the lock; from the assignment
  until it gives the lock back the queue is empty; while it holds the lock no other
  thread can take the lock, replace the queue or release the lock; and before the
  \<^verbatim>\<open>with\<close> block, where \<^verbatim>\<open>output_device.clear()\<close> runs, it does not hold the lock. Run alone,
  the four steps give the response and the device of \<open>cmd_clear\<close>.
\<close>

theorem clear_holds_lock:
  assumes "run C sched (init d) = Some s"
  shows "(pc s = AtAssign \<longrightarrow> lock s = Some Clearer) \<and>
         (pc s = AtRelease \<longrightarrow> lock s = Some Clearer \<and> send_queue (device s) = []) \<and>
         (lock s = Some Clearer \<longrightarrow>
            exec C OtherAcquire s = None \<and> exec C (OtherWrite q) s = None \<and>
            exec C OtherRelease s = None) \<and>
         (pc s = AtClear \<or> pc s = AtAcquire \<longrightarrow> lock s \<noteq> Some Clearer) \<and>
         (\<forall>w. output_device w = d \<longrightarrow>
            run C [ClearStep, ClearStep, ClearStep, ClearStep] (init d) =
              (case device_clear C d of
                 Inl e \<Rightarrow> None
               | Inr d' \<Rightarrow>
                   Some \<lparr>pc = Returned (fst (cmd_clear C w)), lock = None,
                         device = output_device (snd (cmd_clear C w))\<rparr>))"
proof -
  have "clear_inv s" using clear_inv_init assms by (rule clear_inv_run)
  then have a: "(pc s = AtAssign \<longrightarrow> lock s = Some Clearer) \<and>
         (pc s = AtRelease \<longrightarrow> lock s = Some Clearer \<and> send_queue (device s) = []) \<and>
         (pc s = AtClear \<or> pc s = AtAcquire \<longrightarrow> lock s \<noteq> Some Clearer)"
    by (auto simp: clear_inv_def in_critical_def)
  have b: "lock s = Some Clearer \<longrightarrow>
            exec C OtherAcquire s = None \<and> exec C (OtherWrite q) s = None \<and>
            exec C OtherRelease s = None"
    by (simp add: exec_def)
  have c: "\<forall>w. output_device w = d \<longrightarrow>
            run C [ClearStep, ClearStep, ClearStep, ClearStep] (init d) =
              (case device_clear C d of
                 Inl e \<Rightarrow> None
               | Inr d' \<Rightarrow>
                   Some \<lparr>pc = Returned (fst (cmd_clear C w)), lock = None,
                         device = output_device (snd (cmd_clear C w))\<rparr>)"
    by (auto simp add: exec_def clear_step_def init_def cmd_clear_def split: sum.splits)
  from a b c show ?thesis by blast
qed

theorem clear_holds_lock_witness:
  "run buf_collab [ClearStep, ClearStep, ClearStep] (init buf_device) =
     Some \<lparr>pc = AtRelease, lock = Some Clearer,
           device = buf_device\<lparr>internal := [], send_queue := []\<rparr>\<rparr> \<and>
   exec buf_collab (OtherWrite [[5]])
     \<lparr>pc = AtRelease, lock = Some Clearer,
      device = buf_device\<lparr>internal := [], send_queue := []\<rparr>\<rparr> = None"
proof -
  have r: "run buf_collab [ClearStep, ClearStep, ClearStep] (init buf_device) =
     Some \<lparr>pc = AtRelease, lock = Some Clearer,
           device = buf_device\<lparr>internal := [], send_queue := []\<rparr>\<rparr>"
    by (simp add: exec_def clear_step_def init_def buf_collab_def)
  from clear_holds_lock [OF r, of "[[5]]"] r show ?thesis by simp
qed

text \<open>
  C2 as stated fails: \<^verbatim>\<open>output_device.clear()\<close> has returned before the lock is taken, so
  another thread can take the lock in between and see the buffer of the device cleared
  while the queue still holds its frames.
\<close>

theorem clear_not_atomic_counterexample:
  "run buf_collab [ClearStep, OtherAcquire] (init buf_device) =
     Some \<lparr>pc = AtAcquire, lock = Some Other, device = buf_device\<lparr>internal := []\<rparr>\<rparr> \<and>
   internal (buf_device\<lparr>internal := []\<rparr>) = [] \<and>
   internal buf_device = [7, 8, 9] \<and>
   send_queue (buf_device\<lparr>internal := []\<rparr>) = [[1, 2], [3]]"
  by (simp add: exec_def clear_step_def init_def buf_collab_def buf_device_def)

end
